theory Spec2Isabelle
  imports Complex_Main
begin

unbundle bit_operations_syntax

section \<open>Python values, exceptions and the SPI transport\<close>

text \<open>
  The two drivers (\<^verbatim>\<open>AD5628.py\<close>, a DAC, and \<^verbatim>\<open>AD7193.py\<close>, an ADC) are
  Python classes over an \<^verbatim>\<open>SPIDevice\<close>. Python integers are unbounded and are
  modelled as \<^typ>\<open>int\<close>; \<^verbatim>\<open>&\<close>, \<^verbatim>\<open>|\<close> and \<^verbatim>\<open><<\<close> are \<open>AND\<close>, \<open>OR\<close> and
  \<open>push_bit\<close>, which agree with Python on negative numbers too (two's complement of
  unbounded width). A \<^verbatim>\<open>bytes\<close> or \<^verbatim>\<open>bytearray\<close> object is the list of its elements.

  Exceptions are values. The drivers raise \<^verbatim>\<open>ValueError\<close> with a message and
  \<^verbatim>\<open>TimeoutError\<close>; the interpreter itself raises \<^verbatim>\<open>TypeError\<close> (bytes + int),
  \<^verbatim>\<open>OverflowError\<close> (\<^verbatim>\<open>int.to_bytes\<close> of a negative or too large number) and
  \<^verbatim>\<open>ValueError\<close> (shift by a negative count), as CPython does.
\<close>

datatype error = ValueError string | TypeError | OverflowError | TimeoutError

text \<open>
  What the code does to the outside world is recorded in order: a \<^verbatim>\<open>write\<close> on the
  SPI device with its bytes, a \<^verbatim>\<open>readinto\<close> with the bytes the device clocked out, a
  \<^verbatim>\<open>time.sleep\<close> with its duration in seconds.
\<close>

datatype event = Write "int list" | Read "int list" | Sleep real

text \<open>
  The state threaded through every call. \<open>wire\<close> is the record of events so far.
  The environment is given in advance: \<open>miso k\<close> is the \<open>k\<close>-th byte the device
  will ever clock out and \<open>rxpos\<close> counts the bytes read so far; \<open>clock k\<close> is the
  value the \<open>k\<close>-th call of \<^verbatim>\<open>time.monotonic()\<close> returns and \<open>ticks\<close> counts
  these calls. A Python \<^verbatim>\<open>float\<close> is a finite double, given by its exact value as
  a real number.
\<close>

record io =
  wire :: "event list"
  miso :: "nat \<Rightarrow> int"
  rxpos :: nat
  clock :: "nat \<Rightarrow> real"
  ticks :: nat

type_synonym 'a result = "(error + 'a) \<times> io"

definition spi_write :: "int list \<Rightarrow> io \<Rightarrow> io" where
  "spi_write buf s = s\<lparr>wire := wire s @ [Write buf]\<rparr>"

definition spi_readinto :: "nat \<Rightarrow> io \<Rightarrow> int list \<times> io" where
  "spi_readinto n s =
     (let buf = map (miso s) [rxpos s ..< rxpos s + n]
      in (buf, s\<lparr>wire := wire s @ [Read buf], rxpos := rxpos s + n\<rparr>))"

definition monotonic :: "io \<Rightarrow> real \<times> io" where
  "monotonic s = (clock s (ticks s), s\<lparr>ticks := Suc (ticks s)\<rparr>)"

definition sleep :: "real \<Rightarrow> io \<Rightarrow> io" where
  "sleep d s = s\<lparr>wire := wire s @ [Sleep d]\<rparr>"

subsection \<open>\<^verbatim>\<open>int.to_bytes(n, 'big')\<close> and \<^verbatim>\<open>int.from_bytes(b, 'big')\<close>\<close>

fun be_bytes :: "nat \<Rightarrow> int \<Rightarrow> int list" where
  "be_bytes 0 v = []"
| "be_bytes (Suc n) v = be_bytes n (v div 256) @ [v mod 256]"

definition to_bytes :: "int \<Rightarrow> nat \<Rightarrow> error + int list" where
  "to_bytes v n =
     (if v < 0 then Inl OverflowError
      else if 256 ^ n \<le> v then Inl OverflowError
      else Inr (be_bytes n v))"

definition from_bytes :: "int list \<Rightarrow> int" where
  "from_bytes bs = foldl (\<lambda>acc b. acc * 256 + b) 0 bs"

text \<open>\<^verbatim>\<open>a << n\<close>: Python refuses a negative shift count.\<close>

definition shl :: "int \<Rightarrow> int \<Rightarrow> error + int" where
  "shl a n = (if n < 0 then Inl (ValueError ''negative shift count'')
              else Inr (push_bit (nat n) a))"

subsection \<open>Arithmetic on \<^verbatim>\<open>float\<close>\<close>

text \<open>
  Python's \<^verbatim>\<open>a - b\<close> on two floats is the IEEE 754 binary64 subtraction: the exact
  difference rounded to the nearest double, ties to the even significand. A literal
  such as \<^verbatim>\<open>0.001\<close> is the double nearest to the decimal. Comparisons are exact.

  \<open>ulp a\<close> is the spacing of the doubles around a magnitude \<open>a\<close>: \<open>2 ^ (e - 52)\<close>
  where \<open>2 ^ e \<le> a < 2 ^ (e + 1)\<close>, with \<open>e\<close> no smaller than \<open>-1022\<close> (below that
  the doubles are subnormal and equally spaced). It is found by halving or doubling
  \<open>a\<close> into the interval from 1 to 2, starting from the spacing \<open>2 ^ -52\<close> there.
  The first argument bounds the number of steps by the exponent range of the format;
  magnitudes from \<open>2 ^ 1024\<close> on, where a double overflows, are outside this model, and
  the difference of two clock readings never is that large.
\<close>

fun ulp_up :: "nat \<Rightarrow> real \<Rightarrow> real \<Rightarrow> real" where
  "ulp_up 0 a u = u"
| "ulp_up (Suc n) a u = (if 2 \<le> a then ulp_up n (a / 2) (2 * u) else u)"

fun ulp_down :: "nat \<Rightarrow> real \<Rightarrow> real \<Rightarrow> real" where
  "ulp_down 0 a u = u"
| "ulp_down (Suc n) a u = (if a < 1 then ulp_down n (2 * a) (u / 2) else u)"

definition ulp :: "real \<Rightarrow> real" where
  "ulp a = (if 1 \<le> a then ulp_up 1024 a (1 / 2 ^ 52) else ulp_down 1022 a (1 / 2 ^ 52))"

definition round_half_even :: "real \<Rightarrow> int" where
  "round_half_even q =
     (let f = \<lfloor>q\<rfloor>
      in if q - of_int f < 1 / 2 then f
         else if 1 / 2 < q - of_int f then f + 1
         else if even f then f else f + 1)"

definition round_double :: "real \<Rightarrow> real" where
  "round_double x = (let u = ulp \<bar>x\<bar> in of_int (round_half_even (x / u)) * u)"

definition float_sub :: "real \<Rightarrow> real \<Rightarrow> real" where
  "float_sub a b = round_double (a - b)"

section \<open>AD5628: the DAC driver\<close>

definition MAX_CHANNELS :: int where "MAX_CHANNELS = 8"

definition CMD_WRITE_INPUT_REGISTER :: int where "CMD_WRITE_INPUT_REGISTER = 0x00"
definition CMD_UPDATE_DAC :: int where "CMD_UPDATE_DAC = 0x01"
definition CMD_WRITE_INPUT_UPDATE_ALL :: int where "CMD_WRITE_INPUT_UPDATE_ALL = 0x02"
definition CMD_WRITE_AND_UPDATE_DAC :: int where "CMD_WRITE_AND_UPDATE_DAC = 0x03"
definition CMD_POWER_DOWN :: int where "CMD_POWER_DOWN = 0x04"
definition CMD_LOAD_CLEAR_CODE :: int where "CMD_LOAD_CLEAR_CODE = 0x05"
definition CMD_LOAD_LDAC :: int where "CMD_LOAD_LDAC = 0x06"
definition CMD_RESET :: int where "CMD_RESET = 0x07"
definition CMD_SETUP_INT_REF_REG :: int where "CMD_SETUP_INT_REF_REG = 0x08"

definition DAC_ALL_CHANNELS :: int where "DAC_ALL_CHANNELS = 0x0F"

text \<open>
  \<^verbatim>\<open>send_data\<close>: \<^verbatim>\<open>value.to_bytes(4, 'big')\<close>, which may raise, then one write.
\<close>

definition send_data :: "int \<Rightarrow> io \<Rightarrow> unit result" where
  "send_data v s =
     (case to_bytes v 4 of
        Inl e \<Rightarrow> (Inl e, s)
      | Inr buffer \<Rightarrow> (Inr (), spi_write buffer s))"

definition dac_write_register :: "int \<Rightarrow> int \<Rightarrow> io \<Rightarrow> unit result" where
  "dac_write_register channel data s =
     send_data (push_bit 24 CMD_WRITE_INPUT_REGISTER OR push_bit 20 channel
                OR (data AND 0xFFFFF)) s"

definition update_dac :: "int \<Rightarrow> int \<Rightarrow> io \<Rightarrow> unit result" where
  "update_dac channel data s =
     (if channel \<ge> MAX_CHANNELS \<and> channel \<noteq> DAC_ALL_CHANNELS
      then (Inl (ValueError ''Invalid channel''), s)
      else send_data (push_bit 24 CMD_UPDATE_DAC OR push_bit 20 channel
                      OR push_bit 8 data) s)"

definition write_update_dac :: "int \<Rightarrow> int \<Rightarrow> io \<Rightarrow> unit result" where
  "write_update_dac channel data s =
     (if channel \<ge> MAX_CHANNELS \<and> channel \<noteq> DAC_ALL_CHANNELS
      then (Inl (ValueError ''Invalid channel''), s)
      else send_data (push_bit 24 CMD_WRITE_AND_UPDATE_DAC OR push_bit 20 channel
                      OR push_bit 8 data) s)"

definition load_clear_code :: "int \<Rightarrow> io \<Rightarrow> unit result" where
  "load_clear_code code s =
     (if code \<notin> set [0x00, 0x80000, 0xFFFFF]
      then (Inl (ValueError
              ''Invalid clear code, must be 0 (zero), midscale, or fullscale''), s)
      else send_data (push_bit 24 CMD_LOAD_CLEAR_CODE OR (code AND 0xFFFFF)) s)"

definition load_ldac :: "int \<Rightarrow> io \<Rightarrow> unit result" where
  "load_ldac channel s =
     (if channel \<ge> MAX_CHANNELS \<and> channel \<noteq> DAC_ALL_CHANNELS
      then (Inl (ValueError ''Invalid channel''), s)
      else (case shl 0x01 channel of
              Inl e \<Rightarrow> (Inl e, s)
            | Inr shifted \<Rightarrow>
                (let ldac_value = shifted AND 0xFF
                 in send_data (push_bit 24 CMD_LOAD_LDAC OR push_bit 8 ldac_value) s)))"

section \<open>AD7193: the ADC driver\<close>

definition STATUS_REGISTER :: int where "STATUS_REGISTER = 0x00"
definition MODE_REGISTER :: int where "MODE_REGISTER = 0x01"
definition CONFIGURATION_REGISTER :: int where "CONFIGURATION_REGISTER = 0x02"
definition DATA_REGISTER :: int where "DATA_REGISTER = 0x03"

text \<open>
  \<^verbatim>\<open>write_register(register, value)\<close> is called with a \<^verbatim>\<open>bytes\<close> object by
  \<^verbatim>\<open>initialize\<close> and with an \<^verbatim>\<open>int\<close> by \<^verbatim>\<open>configure_adc\<close>, so its second
  argument is a Python value of either kind. \<^verbatim>\<open>bytes([command]) + value\<close> raises
  \<^verbatim>\<open>TypeError\<close> for an \<^verbatim>\<open>int\<close>; \<^verbatim>\<open>bytes([command])\<close> itself cannot fail, the
  mask keeps \<open>command\<close> within 0..255.
\<close>

datatype pyval = PyInt int | PyBytes "int list"

definition write_register :: "int \<Rightarrow> pyval \<Rightarrow> io \<Rightarrow> unit result" where
  "write_register register val s =
     (let command = push_bit 3 register AND 0xF8
      in case val of
           PyInt i \<Rightarrow> (Inl TypeError, s)
         | PyBytes payload \<Rightarrow> (Inr (), spi_write ([command] @ payload) s))"

definition read_register :: "int \<Rightarrow> nat \<Rightarrow> io \<Rightarrow> int list \<times> io" where
  "read_register register len s =
     (let command = (push_bit 3 register OR 0x40) AND 0xFF
      in spi_readinto len (spi_write [command] s))"

text \<open>
  \<^verbatim>\<open>initialize\<close>: the two fixed register values, each sent as 3 big-endian bytes.
\<close>

definition initialize :: "io \<Rightarrow> unit result" where
  "initialize s =
     (case to_bytes 0x080060 3 of
        Inl e \<Rightarrow> (Inl e, s)
      | Inr mode_bytes \<Rightarrow>
          (case write_register MODE_REGISTER (PyBytes mode_bytes) s of
             (Inl e, s1) \<Rightarrow> (Inl e, s1)
           | (Inr u, s1) \<Rightarrow>
               (case to_bytes 0x000117 3 of
                  Inl e \<Rightarrow> (Inl e, s1)
                | Inr config_bytes \<Rightarrow>
                    write_register CONFIGURATION_REGISTER (PyBytes config_bytes) s1)))"

text \<open>
  \<^verbatim>\<open>data_ready\<close>: one byte of the status register; ready when bit 7 is clear.
\<close>

definition data_ready :: "io \<Rightarrow> bool \<times> io" where
  "data_ready s =
     (case read_register STATUS_REGISTER 1 s of
        (buffer, s1) \<Rightarrow> (let status = buffer ! 0 in (status AND 0x80 = 0, s1)))"

text \<open>
  \<^verbatim>\<open>wait_for_data_ready\<close>: the \<^verbatim>\<open>while\<close> loop may run forever (a device that is
  never ready and a clock that never passes the timeout), so the loop is a partial
  function and \<open>None\<close> means that the call does not return. The elapsed time
  \<^verbatim>\<open>time.monotonic() - start\<close> is a subtraction of floats, and the argument of
  \<^verbatim>\<open>time.sleep\<close> is the float literal \<^verbatim>\<open>0.001\<close>. The timeout is a finite
  number, a float or an int, and the comparison with it is exact.
\<close>

partial_function (option) wait_loop :: "real \<Rightarrow> real \<Rightarrow> io \<Rightarrow> unit result option" where
  "wait_loop start timeout s =
     (case data_ready s of
        (ready, s1) \<Rightarrow>
          if ready then Some (Inr (), s1)
          else (case monotonic s1 of
                  (now, s2) \<Rightarrow>
                    if float_sub now start > timeout then Some (Inl TimeoutError, s2)
                    else wait_loop start timeout (sleep (round_double 0.001) s2)))"

definition wait_for_data_ready :: "real \<Rightarrow> io \<Rightarrow> unit result option" where
  "wait_for_data_ready timeout s =
     (case monotonic s of (start, s0) \<Rightarrow> wait_loop start timeout s0)"

text \<open>
  \<^verbatim>\<open>get_active_channels\<close>: the configuration register as a 24-bit number, then
  the channels 0..7 whose bit is set, in increasing order. \<open>active_channels\<close> is
  the loop over \<^verbatim>\<open>range(8)\<close> (lines 93 to 97), which appends a channel when
  \<^verbatim>\<open>config & (1 << channel)\<close> is not zero.
\<close>

definition active_channels :: "int \<Rightarrow> int list" where
  "active_channels config =
     filter (\<lambda>channel. config AND push_bit (nat channel) 1 \<noteq> 0) [0..7]"

definition get_active_channels :: "io \<Rightarrow> int list \<times> io" where
  "get_active_channels s =
     (case read_register CONFIGURATION_REGISTER 3 s of
        (buffer, s1) \<Rightarrow> (active_channels (from_bytes buffer), s1))"

text \<open>
  \<^verbatim>\<open>configure_adc\<close>. The dictionary \<open>gain_map\<close> is a finite map. The two
  \<^verbatim>\<open>for ch in channels\<close> loops differ in the upper bound and in the message only;
  \<open>channel_loop\<close> is that loop, with the mask built so far as its last argument.
\<close>

definition gain_map :: "int \<rightharpoonup> int" where
  "gain_map = map_of [(1, 0), (8, 3), (16, 4), (32, 5), (64, 6), (128, 7)]"

fun channel_loop :: "int \<Rightarrow> string \<Rightarrow> int list \<Rightarrow> int \<Rightarrow> error + int" where
  "channel_loop hi msg [] channel_mask = Inr channel_mask"
| "channel_loop hi msg (ch # chs) channel_mask =
     (if 1 \<le> ch \<and> ch \<le> hi
      then channel_loop hi msg chs (channel_mask OR push_bit (nat (ch - 1)) 1)
      else Inl (ValueError msg))"

text \<open>
  Lines 114 to 146 of \<^verbatim>\<open>configure_adc\<close>: the validation and the packed value
  \<open>config_value\<close>, before anything is sent.
\<close>

definition config_value :: "string \<Rightarrow> string \<Rightarrow> int list \<Rightarrow> int \<Rightarrow> error + int" where
  "config_value mode polarity channels gain =
     (if mode \<notin> set [''pseudo-differential'', ''differential'']
      then Inl (ValueError
             ''Invalid mode. Choose 'pseudo-differential' or 'differential'.'')
      else if polarity \<notin> set [''unipolar'', ''bipolar'']
      then Inl (ValueError ''Invalid polarity. Choose 'unipolar' or 'bipolar'.'')
      else case gain_map gain of
        None \<Rightarrow> Inl (ValueError ''Invalid gain. Choose from 1, 8, 16, 32, 64, 128.'')
      | Some gain_code \<Rightarrow>
          (case (if mode = ''pseudo-differential''
                 then channel_loop 8
                        ''Invalid channel for pseudo-differential. Choose 1-8.''
                        channels 0
                 else if mode = ''differential''
                 then channel_loop 4
                        ''Invalid channel for differential. Choose 1-4.''
                        channels 0
                 else Inr 0) of
             Inl e \<Rightarrow> Inl e
           | Inr channel_mask \<Rightarrow>
               (let unipolar_bit = (if polarity = ''bipolar'' then 0 else 1)
                in Inr (push_bit 12 unipolar_bit OR push_bit 8 gain_code
                        OR channel_mask))))"

text \<open>Line 149: the packed value goes to \<^verbatim>\<open>write_register\<close> as it is, an \<^verbatim>\<open>int\<close>.\<close>

definition configure_adc :: "string \<Rightarrow> string \<Rightarrow> int list \<Rightarrow> int \<Rightarrow> io \<Rightarrow> unit result" where
  "configure_adc mode polarity channels gain s =
     (case config_value mode polarity channels gain of
        Inl e \<Rightarrow> (Inl e, s)
      | Inr v \<Rightarrow> write_register CONFIGURATION_REGISTER (PyInt v) s)"

text \<open>The names the specification gives to the drivers' errors.\<close>

definition InvalidChannel :: error where
  "InvalidChannel = ValueError ''Invalid channel''"

definition InvalidClearCode :: error where
  "InvalidClearCode =
     ValueError ''Invalid clear code, must be 0 (zero), midscale, or fullscale''"

definition InvalidMode :: error where
  "InvalidMode =
     ValueError ''Invalid mode. Choose 'pseudo-differential' or 'differential'.''"

definition InvalidPolarity :: error where
  "InvalidPolarity = ValueError ''Invalid polarity. Choose 'unipolar' or 'bipolar'.''"

definition InvalidGain :: error where
  "InvalidGain = ValueError ''Invalid gain. Choose from 1, 8, 16, 32, 64, 128.''"

definition InvalidChannelFor :: "string \<Rightarrow> error" where
  "InvalidChannelFor mode =
     (if mode = ''pseudo-differential''
      then ValueError ''Invalid channel for pseudo-differential. Choose 1-8.''
      else ValueError ''Invalid channel for differential. Choose 1-4.'')"

text \<open>A transport on which nothing has happened yet, for concrete runs.\<close>

definition idle :: io where
  "idle = \<lparr>wire = [], miso = (\<lambda>k. 0), rxpos = 0, clock = (\<lambda>k. 0), ticks = 0\<rparr>"

text \<open>
  The events of \<open>k\<close> polls of the status register that found the device busy, each
  followed by the sleep of \<^verbatim>\<open>wait_for_data_ready\<close>, from the state \<open>s\<close> on. The
  command byte of a status read is \<open>0x40\<close>.
\<close>

definition busy_polls :: "io \<Rightarrow> nat \<Rightarrow> event list" where
  "busy_polls s k =
     concat (map (\<lambda>j. [Write [0x40], Read [miso s (rxpos s + j)], Sleep (round_double 0.001)]) [0..<k])"

text \<open>
  Concrete environments: a device that answers the next read with \<open>00 15 0F\<close>; a device
  whose status byte is always \<open>0x80\<close>, under a clock whose readings are the doubles
  \<^verbatim>\<open>0.1\<close>, \<^verbatim>\<open>1.1\<close> and then \<^verbatim>\<open>1.5\<close>; the same with the ready bit clear from the
  second status byte on.
\<close>

definition holding :: io where
  "holding = idle\<lparr>miso := (\<lambda>k. if k = 0 then 0x00 else if k = 1 then 0x15 else 0x0F)\<rparr>"

definition stuck :: io where
  "stuck = \<lparr>wire = [], miso = (\<lambda>k. 0x80), rxpos = 0,
             clock = (\<lambda>k. if k = 0 then 3602879701896397 / 2 ^ 55
                         else if k = 1 then 2476979795053773 / 2 ^ 51
                         else 3 / 2),
             ticks = 0\<rparr>"

definition late_ready :: io where
  "late_ready = stuck\<lparr>miso := (\<lambda>k. if k < 1 then 0x80 else 0x08)\<rparr>"

section \<open>Helper facts\<close>

lemmas dac_consts =
  MAX_CHANNELS_def CMD_WRITE_INPUT_REGISTER_def CMD_UPDATE_DAC_def
  CMD_WRITE_INPUT_UPDATE_ALL_def CMD_WRITE_AND_UPDATE_DAC_def CMD_POWER_DOWN_def
  CMD_LOAD_CLEAR_CODE_def CMD_LOAD_LDAC_def CMD_RESET_def CMD_SETUP_INT_REF_REG_def
  DAC_ALL_CHANNELS_def

lemmas adc_consts =
  STATUS_REGISTER_def MODE_REGISTER_def CONFIGURATION_REGISTER_def DATA_REGISTER_def

lemmas dac_unfold =
  send_data_def to_bytes_def dac_consts shl_def spi_write_def eval_nat_numeral

lemma small_channel_cases:
  "0 \<le> (c::int) \<Longrightarrow> c \<le> 7 \<Longrightarrow>
   c = 0 \<or> c = 1 \<or> c = 2 \<or> c = 3 \<or> c = 4 \<or> c = 5 \<or> c = 6 \<or> c = 7"
  by arith

lemma be_bytes_4:
  "be_bytes 4 v = [v div 16777216 mod 256, v div 65536 mod 256, v div 256 mod 256, v mod 256]"
proof -
  have "v div 256 div 256 = v div 65536" "v div 256 div 256 div 256 = v div 16777216"
    by (simp_all add: zdiv_zmult2_eq [symmetric])
  then show ?thesis by (simp add: eval_nat_numeral)
qed

text \<open>
  With a channel below 16 and a data value below \<open>2 ^ 12\<close> the three operands of
  the command word \<^verbatim>\<open>(CMD << 24) | (channel << 20) | (data << 8)\<close> do not overlap.
\<close>

lemma dac_command_eq:
  fixes opc c d :: int
  assumes "0 \<le> d" "d < 4096" "0 \<le> c" "c < 16"
  shows "push_bit 24 opc OR push_bit 20 c OR push_bit 8 d
         = opc * 16777216 + c * 1048576 + d * 256"
proof -
  have d: "take_bit 12 d = d" and c: "take_bit 4 c = c"
    using assms by (simp_all add: take_bit_int_eq_self)
  have low: "bit (push_bit 8 (take_bit 12 d)) n \<Longrightarrow> n < 20" for n
    by (auto simp: bit_simps)
  have mid: "bit (push_bit 20 (take_bit 4 c)) n \<Longrightarrow> n < 24" for n
    by (auto simp: bit_simps)
  have "push_bit 20 c + push_bit 8 d = push_bit 20 c OR push_bit 8 d"
  proof (rule disjunctive_add)
    fix n
    from low [of n] show "\<not> bit (push_bit 20 c) n \<or> \<not> bit (push_bit 8 d) n"
      by (auto simp: d bit_simps)
  qed
  moreover have "push_bit 24 opc + (push_bit 20 c OR push_bit 8 d)
                 = push_bit 24 opc OR (push_bit 20 c OR push_bit 8 d)"
  proof (rule disjunctive_add)
    fix n
    from low [of n] mid [of n]
    show "\<not> bit (push_bit 24 opc) n \<or> \<not> bit (push_bit 20 c OR push_bit 8 d) n"
      by (auto simp: d c bit_simps)
  qed
  ultimately show ?thesis
    by (simp add: push_bit_eq_mult or.assoc)
qed

lemma dac_command_bytes:
  fixes opc c d :: int
  assumes "0 \<le> d" "d < 4096" "0 \<le> c" "c < 16" "0 \<le> opc" "opc < 256"
  shows "be_bytes 4 (opc * 16777216 + c * 1048576 + d * 256)
         = [opc, 16 * c + d div 256, d mod 256, 0]"
proof -
  let ?w = "opc * 16777216 + c * 1048576 + d * 256"
  have 1: "?w div 16777216 mod 256 = opc" using assms by simp
  have "?w div 65536 = opc * 256 + (16 * c + d div 256)" by simp
  moreover have "0 \<le> 16 * c + d div 256" "16 * c + d div 256 < 256"
    using assms by simp_all
  ultimately have 2: "?w div 65536 mod 256 = 16 * c + d div 256" by simp
  have "?w div 256 = d + 256 * (opc * 256 + c * 16)" by simp
  then have 3: "?w div 256 mod 256 = d mod 256" by (simp only: mod_mult_self2)
  have 4: "?w mod 256 = 0" by simp
  show ?thesis by (simp only: be_bytes_4 1 2 3 4)
qed

lemma dac_command_fields:
  fixes opc c d :: int
  assumes "0 \<le> d" "d < 4096" "0 \<le> c" "c < 16" "0 \<le> opc" "opc < 16"
  defines "w \<equiv> opc * 16777216 + c * 1048576 + d * 256"
  shows "drop_bit 28 w = 0" "take_bit 4 (drop_bit 24 w) = opc"
    "take_bit 4 (drop_bit 20 w) = c" "take_bit 20 w = push_bit 8 d"
proof -
  have r: "0 \<le> c * 1048576 + d * 256" "c * 1048576 + d * 256 < 16777216"
    using assms by simp_all
  have w24: "w div 16777216 = opc" using r by (simp add: w_def)
  then show "drop_bit 28 w = 0" using assms
    by (simp add: drop_bit_eq_div zdiv_zmult2_eq [of 16 w 16777216, simplified])
  from w24 show "take_bit 4 (drop_bit 24 w) = opc" using assms
    by (simp add: drop_bit_eq_div take_bit_eq_mod)
  have "w div 1048576 = c + 16 * opc" using assms by (simp add: w_def)
  then have "w div 1048576 mod 16 = c mod 16" by (simp only: mod_mult_self2)
  then show "take_bit 4 (drop_bit 20 w) = c" using assms
    by (simp add: drop_bit_eq_div take_bit_eq_mod)
  have "w = d * 256 + 1048576 * (opc * 16 + c)" by (simp add: w_def)
  then have "w mod 1048576 = (d * 256) mod 1048576" by (simp only: mod_mult_self2)
  then show "take_bit 20 w = push_bit 8 d" using assms
    by (simp add: take_bit_eq_mod push_bit_eq_mult)
qed

section \<open>AD5628: the channel check\<close>

text \<open>
  The guard \<^verbatim>\<open>channel >= MAX_CHANNELS and channel != DAC_ALL_CHANNELS\<close> rejects 8 to
  14 and everything above 15, and accepts 0 to 7 and 15.
\<close>

lemma dac_channel_rejected:
  assumes "8 \<le> channel" and "channel \<noteq> 15"
  shows "update_dac channel data s = (Inl InvalidChannel, s)"
    and "write_update_dac channel data s = (Inl InvalidChannel, s)"
    and "load_ldac channel s = (Inl InvalidChannel, s)"
  using assms
  by (simp_all add: update_dac_def write_update_dac_def load_ldac_def InvalidChannel_def
      dac_consts)

lemma dac_channel_accepted:
  assumes "channel \<in> {0..7} \<union> {15}"
  shows "fst (update_dac channel data s) \<noteq> Inl InvalidChannel"
    and "fst (write_update_dac channel data s) \<noteq> Inl InvalidChannel"
    and "fst (load_ldac channel s) \<noteq> Inl InvalidChannel"
  using assms
  by (auto simp: update_dac_def write_update_dac_def load_ldac_def InvalidChannel_def
      send_data_def to_bytes_def shl_def dac_consts)

text \<open>
  C3 (the code departs from the claim). The claim wants \<open>InvalidChannel\<close> for every
  channel outside 0..7 and 15, negative ones included. The guard has no lower bound:
  channel \<open>-1\<close> passes it. \<^verbatim>\<open>update_dac\<close> and \<^verbatim>\<open>write_update_dac\<close> then build a
  negative command word, on which \<^verbatim>\<open>to_bytes\<close> raises \<^verbatim>\<open>OverflowError\<close>;
  \<^verbatim>\<open>load_ldac\<close> fails in \<^verbatim>\<open>1 << channel\<close> with the interpreter's own
  \<^verbatim>\<open>ValueError\<close>. Nothing is sent, but none of the three raises
  \<open>InvalidChannel\<close>.
\<close>

theorem dac_negative_channel_not_rejected:
  "update_dac (-1) 0 s = (Inl OverflowError, s) \<and>
   write_update_dac (-1) 0 s = (Inl OverflowError, s) \<and>
   load_ldac (-1) s = (Inl (ValueError ''negative shift count''), s) \<and>
   fst (update_dac (-1) 0 s) \<noteq> Inl InvalidChannel \<and>
   fst (write_update_dac (-1) 0 s) \<noteq> Inl InvalidChannel \<and>
   fst (load_ldac (-1) s) \<noteq> Inl InvalidChannel"
  by (simp add: update_dac_def write_update_dac_def load_ldac_def InvalidChannel_def
      dac_unfold)

section \<open>AD5628: the command words\<close>

text \<open>
  C5, as claimed, fails. The claim puts the opcode in the top 4 bits of the 32-bit word
  and the channel in the next 4, for every data value. The code shifts the opcode by 24
  and the channel by 20: \<^verbatim>\<open>update_dac(0, 0)\<close> sends \<open>01 00 00 00\<close>, whose top 4 bits
  are 0 and whose next 4 bits are the opcode 1. A data value of \<open>2 ^ 12\<close> spills into
  the channel field, and a negative one makes \<^verbatim>\<open>to_bytes\<close> raise, so nothing is sent.
\<close>

theorem dac_command_layout_counterexample:
  "update_dac 0 0 idle = (Inr (), idle\<lparr>wire := [Write [0x01, 0x00, 0x00, 0x00]]\<rparr>) \<and>
   take_bit 4 (drop_bit 28 (from_bytes [0x01, 0x00, 0x00, 0x00])) \<noteq> CMD_UPDATE_DAC \<and>
   take_bit 4 (drop_bit 24 (from_bytes [0x01, 0x00, 0x00, 0x00])) \<noteq> 0 \<and>
   update_dac 0 0x1000 idle = (Inr (), idle\<lparr>wire := [Write [0x01, 0x10, 0x00, 0x00]]\<rparr>) \<and>
   update_dac 0 (-1) idle = (Inl OverflowError, idle)"
  by (simp add: update_dac_def idle_def from_bytes_def drop_bit_eq_div take_bit_eq_mod
      dac_unfold)

text \<open>
  C5, amended. For every channel \<open>c\<close> in 0..7 or 15 and every data value \<open>d\<close> with
  \<open>0 \<le> d < 2 ^ 12\<close>, \<^verbatim>\<open>update_dac\<close> and \<^verbatim>\<open>write_update_dac\<close> send exactly 4
  bytes, the big-endian encoding of the word \<^verbatim>\<open>(opcode << 24) | (c << 20) | (d << 8)\<close>,
  which is \<open>opcode * 2 ^ 24 + c * 2 ^ 20 + d * 2 ^ 8\<close> (opcode 1 and 3): its top 4 bits are zero, the next 4 bits (27..24) are the opcode,
  bits 23..20 are the channel, and the low 20 bits are the data shifted left by 8.
\<close>

theorem dac_command_layout:
  assumes "c \<in> {0..7} \<union> {15}" and "0 \<le> d" and "d < 4096"
  shows "update_dac c d s =
           (Inr (), s\<lparr>wire := wire s @ [Write [0x01, 16 * c + d div 256, d mod 256, 0]]\<rparr>) \<and>
         write_update_dac c d s =
           (Inr (), s\<lparr>wire := wire s @ [Write [0x03, 16 * c + d div 256, d mod 256, 0]]\<rparr>) \<and>
         (\<forall>opc\<in>{0x1, 0x3}.
            (let w = push_bit 24 opc OR push_bit 20 c OR push_bit 8 d
             in w = opc * 2 ^ 24 + c * 2 ^ 20 + d * 2 ^ 8 \<and>
                to_bytes w 4 = Inr [opc, 16 * c + d div 256, d mod 256, 0] \<and>
                drop_bit 28 w = 0 \<and>
                take_bit 4 (drop_bit 24 w) = opc \<and>
                take_bit 4 (drop_bit 20 w) = c \<and>
                take_bit 20 w = push_bit 8 d))"
proof -
  from assms(1) have c: "0 \<le> c" "c < 16" by auto
  from assms(1) have chk: "\<not> (c \<ge> MAX_CHANNELS \<and> c \<noteq> DAC_ALL_CHANNELS)"
    by (auto simp: dac_consts)
  have word: "push_bit 24 opc OR push_bit 20 c OR push_bit 8 d
              = opc * 16777216 + c * 1048576 + d * 256" for opc
    using assms(2,3) c by (rule dac_command_eq)
  have range: "0 \<le> opc * 16777216 + c * 1048576 + d * 256 \<and>
               opc * 16777216 + c * 1048576 + d * 256 < 256 ^ 4"
    if "0 \<le> opc" "opc < 16" for opc
    using that assms(2,3) c by simp
  have bytes: "to_bytes (opc * 16777216 + c * 1048576 + d * 256) 4
               = Inr [opc, 16 * c + d div 256, d mod 256, 0]"
    if "0 \<le> opc" "opc < 16" for opc
    using range [OF that] dac_command_bytes [OF assms(2,3) c, of opc] that
    by (simp add: to_bytes_def)
  have "update_dac c d s =
          (Inr (), s\<lparr>wire := wire s @ [Write [0x01, 16 * c + d div 256, d mod 256, 0]]\<rparr>)"
    using chk bytes [of 1] word [of 1]
    by (simp add: update_dac_def send_data_def spi_write_def CMD_UPDATE_DAC_def)
  moreover have "write_update_dac c d s =
          (Inr (), s\<lparr>wire := wire s @ [Write [0x03, 16 * c + d div 256, d mod 256, 0]]\<rparr>)"
    using chk bytes [of 3] word [of 3]
    by (simp add: write_update_dac_def send_data_def spi_write_def
        CMD_WRITE_AND_UPDATE_DAC_def)
  moreover have "\<forall>opc\<in>{0x1, 0x3}.
            (let w = push_bit 24 opc OR push_bit 20 c OR push_bit 8 d
             in w = opc * 2 ^ 24 + c * 2 ^ 20 + d * 2 ^ 8 \<and>
                to_bytes w 4 = Inr [opc, 16 * c + d div 256, d mod 256, 0] \<and>
                drop_bit 28 w = 0 \<and>
                take_bit 4 (drop_bit 24 w) = opc \<and>
                take_bit 4 (drop_bit 20 w) = c \<and>
                take_bit 20 w = push_bit 8 d)"
  proof
    fix opc :: int
    assume "opc \<in> {0x1, 0x3}"
    then have o: "0 \<le> opc" "opc < 16" by auto
    show "let w = push_bit 24 opc OR push_bit 20 c OR push_bit 8 d
          in w = opc * 2 ^ 24 + c * 2 ^ 20 + d * 2 ^ 8 \<and>
             to_bytes w 4 = Inr [opc, 16 * c + d div 256, d mod 256, 0] \<and>
             drop_bit 28 w = 0 \<and>
             take_bit 4 (drop_bit 24 w) = opc \<and>
             take_bit 4 (drop_bit 20 w) = c \<and>
             take_bit 20 w = push_bit 8 d"
      using bytes [OF o] dac_command_fields [OF assms(2,3) c o]
      by (simp add: Let_def word [of opc])
  qed
  ultimately show ?thesis by blast
qed

theorem dac_command_layout_witness:
  "(3::int) \<in> {0..7} \<union> {15} \<and> (0::int) \<le> 0xABC \<and> (0xABC::int) < 4096 \<and>
   update_dac 3 0xABC idle = (Inr (), idle\<lparr>wire := [Write [0x01, 0x3A, 0xBC, 0x00]]\<rparr>) \<and>
   write_update_dac 3 0xABC idle = (Inr (), idle\<lparr>wire := [Write [0x03, 0x3A, 0xBC, 0x00]]\<rparr>) \<and>
   push_bit 24 1 OR push_bit 20 3 OR push_bit 8 0xABC = (0x013ABC00 :: int) \<and>
   to_bytes 0x013ABC00 4 = Inr [0x01, 0x3A, 0xBC, 0x00] \<and>
   take_bit 4 (drop_bit 24 (0x013ABC00 :: int)) = 1 \<and>
   take_bit 4 (drop_bit 20 (0x013ABC00 :: int)) = 3"
  using dac_command_layout [of 3 "0xABC" idle]
  by (simp add: idle_def Let_def)

text \<open>
  C10. \<^verbatim>\<open>load_ldac(15)\<close> is accepted and sends \<open>06 00 00 00\<close>: \<^verbatim>\<open>(1 << 15) & 0xFF\<close>
  is 0, so the mask is empty. For a channel \<open>c\<close> in 0..7 it sends the 4 bytes of
  \<^verbatim>\<open>0x06000000 | ((1 << c) << 8)\<close>, which are 06, 00, \<open>2 ^ c\<close>, 00: bit \<open>c\<close>
  of the 8-bit mask and no other.
\<close>

theorem load_ldac_mask:
  "load_ldac 15 s = (Inr (), s\<lparr>wire := wire s @ [Write [0x06, 0x00, 0x00, 0x00]]\<rparr>) \<and>
   shl 1 15 = Inr 32768 \<and> (32768 :: int) AND 0xFF = 0 \<and>
   (\<forall>c\<in>{0..7}.
       load_ldac c s =
         (Inr (), s\<lparr>wire := wire s @ [Write [0x06, 0x00, 2 ^ nat c, 0x00]]\<rparr>) \<and>
       to_bytes (0x06000000 OR push_bit 8 (push_bit (nat c) 1)) 4
         = Inr [0x06, 0x00, 2 ^ nat c, 0x00])"
proof (intro conjI ballI)
  show "load_ldac 15 s = (Inr (), s\<lparr>wire := wire s @ [Write [0x06, 0x00, 0x00, 0x00]]\<rparr>)"
    by (simp add: load_ldac_def dac_unfold)
  show "shl 1 15 = Inr 32768"
    by (simp add: shl_def)
  show "(32768 :: int) AND 0xFF = 0"
    by simp
next
  fix c :: int
  assume "c \<in> {0..7}"
  then have c: "c = 0 \<or> c = 1 \<or> c = 2 \<or> c = 3 \<or> c = 4 \<or> c = 5 \<or> c = 6 \<or> c = 7"
    by (simp add: small_channel_cases)
  from c show "load_ldac c s =
      (Inr (), s\<lparr>wire := wire s @ [Write [0x06, 0x00, 2 ^ nat c, 0x00]]\<rparr>)"
    by (elim disjE) (simp_all add: load_ldac_def dac_unfold)
  from c show "to_bytes (0x06000000 OR push_bit 8 (push_bit (nat c) 1)) 4
      = Inr [0x06, 0x00, 2 ^ nat c, 0x00]"
    by (elim disjE) (simp_all add: dac_unfold)
qed

theorem load_ldac_mask_witness:
  "(5::int) \<in> {0..7} \<and>
   load_ldac 5 idle = (Inr (), idle\<lparr>wire := [Write [0x06, 0x00, 0x20, 0x00]]\<rparr>) \<and>
   load_ldac 15 idle = (Inr (), idle\<lparr>wire := [Write [0x06, 0x00, 0x00, 0x00]]\<rparr>)"
  using load_ldac_mask [of idle]
  by (simp add: idle_def)

text \<open>
  C6. \<^verbatim>\<open>load_clear_code(code)\<close> raises \<open>InvalidClearCode\<close> exactly when \<open>code\<close> is
  none of 0, \<open>0x80000\<close>, \<open>0xFFFFF\<close>, and then sends nothing; otherwise it succeeds
  with one write of 4 bytes. For \<open>0x80000\<close> the bytes are \<open>05 08 00 00\<close>, the
  big-endian encoding of \<open>0x05080000\<close>.
\<close>

theorem load_clear_code_check:
  "(fst (load_clear_code code s) = Inl InvalidClearCode)
     = (code \<notin> {0x0, 0x80000, 0xFFFFF}) \<and>
   load_clear_code code s =
     (if code \<in> {0x0, 0x80000, 0xFFFFF}
      then (Inr (), s\<lparr>wire := wire s @ [Write [0x05, code div 65536, code div 256 mod 256,
                                                code mod 256]]\<rparr>)
      else (Inl InvalidClearCode, s)) \<and>
   load_clear_code 0x80000 s
     = (Inr (), s\<lparr>wire := wire s @ [Write [0x05, 0x08, 0x00, 0x00]]\<rparr>) \<and>
   to_bytes 0x05080000 4 = Inr [0x05, 0x08, 0x00, 0x00]"
  by (auto simp add: load_clear_code_def InvalidClearCode_def dac_unfold)

theorem load_clear_code_check_witness:
  "(0x12345 :: int) \<notin> {0x0, 0x80000, 0xFFFFF} \<and>
   load_clear_code 0x12345 idle = (Inl InvalidClearCode, idle) \<and>
   (0xFFFFF :: int) \<in> {0x0, 0x80000, 0xFFFFF} \<and>
   load_clear_code 0xFFFFF idle = (Inr (), idle\<lparr>wire := [Write [0x05, 0x0F, 0xFF, 0xFF]]\<rparr>)"
  using load_clear_code_check [of "0x12345" idle] load_clear_code_check [of "0xFFFFF" idle]
  by (simp add: idle_def)

section \<open>AD7193: validation and the configuration value\<close>

lemma channel_loop_ok:
  "\<forall>ch\<in>set chs. 1 \<le> ch \<and> ch \<le> hi \<Longrightarrow> \<exists>m'. channel_loop hi msg chs m = Inr m'"
  by (induction chs arbitrary: m) auto

lemma channel_loop_bad:
  "\<exists>ch\<in>set chs. \<not> (1 \<le> ch \<and> ch \<le> hi) \<Longrightarrow> channel_loop hi msg chs m = Inl (ValueError msg)"
  by (induction chs arbitrary: m) auto

lemma channel_loop_bits:
  "channel_loop hi msg chs m = Inr m' \<Longrightarrow> bit m' n \<longleftrightarrow> bit m n \<or> int n + 1 \<in> set chs"
proof (induction chs arbitrary: m)
  case Nil
  then show ?case by simp
next
  case (Cons ch chs)
  from Cons.prems have ok: "1 \<le> ch" "ch \<le> hi"
    and rest: "channel_loop hi msg chs (m OR push_bit (nat (ch - 1)) 1) = Inr m'"
    by (auto split: if_splits)
  have "bit (push_bit (nat (ch - 1)) (1::int)) n \<longleftrightarrow> int n + 1 = ch"
    using ok by (auto simp: bit_simps)
  with Cons.IH [OF rest] show ?case
    by (auto simp: bit_simps)
qed

lemma gain_map_dom: "gain_map g \<noteq> None \<longleftrightarrow> g \<in> {1, 8, 16, 32, 64, 128}"
  by (auto simp: gain_map_def)

lemma config_value_valid:
  assumes "mode \<in> {''pseudo-differential'', ''differential''}"
    and "polarity \<in> {''unipolar'', ''bipolar''}"
    and "gain_map gain = Some code"
    and "\<forall>ch\<in>set channels. 1 \<le> ch \<and> ch \<le> (if mode = ''pseudo-differential'' then 8 else 4)"
  shows "\<exists>mask. channel_loop (if mode = ''pseudo-differential'' then 8 else 4)
                  (if mode = ''pseudo-differential''
                   then ''Invalid channel for pseudo-differential. Choose 1-8.''
                   else ''Invalid channel for differential. Choose 1-4.'') channels 0 = Inr mask \<and>
           config_value mode polarity channels gain =
             Inr (push_bit 12 (if polarity = ''bipolar'' then 0 else 1) OR push_bit 8 code OR mask)"
proof -
  let ?hi = "if mode = ''pseudo-differential'' then 8 else (4::int)"
  let ?msg = "if mode = ''pseudo-differential''
                   then ''Invalid channel for pseudo-differential. Choose 1-8.''
                   else ''Invalid channel for differential. Choose 1-4.''"
  from channel_loop_ok [OF assms(4)] obtain mask where m: "channel_loop ?hi ?msg channels 0 = Inr mask"
    by blast
  have "config_value mode polarity channels gain =
             Inr (push_bit 12 (if polarity = ''bipolar'' then 0 else 1) OR push_bit 8 code OR mask)"
  proof (cases "mode = ''pseudo-differential''")
    case True
    with m assms(2,3) show ?thesis by (simp add: config_value_def)
  next
    case False
    with assms(1) have "mode = ''differential''" by simp
    with m assms(2,3) show ?thesis by (simp add: config_value_def)
  qed
  with m show ?thesis by blast
qed

text \<open>
  C1. Whenever the four arguments pass every validation check of
  \<^verbatim>\<open>configure_adc\<close>, the packed value is built and handed to \<^verbatim>\<open>write_register\<close>
  as an \<^verbatim>\<open>int\<close>; \<^verbatim>\<open>bytes([command]) + value\<close> raises \<^verbatim>\<open>TypeError\<close> before the
  transfer, so the call ends in \<^verbatim>\<open>TypeError\<close> with the transport untouched: nothing
  is written.
\<close>

theorem configure_adc_type_error:
  assumes "mode \<in> {''pseudo-differential'', ''differential''}"
    and "polarity \<in> {''unipolar'', ''bipolar''}"
    and "gain \<in> {1, 8, 16, 32, 64, 128}"
    and "\<forall>ch\<in>set channels. 1 \<le> ch \<and> ch \<le> (if mode = ''pseudo-differential'' then 8 else 4)"
  shows "(\<exists>v. config_value mode polarity channels gain = Inr v \<and>
              write_register CONFIGURATION_REGISTER (PyInt v) s = (Inl TypeError, s)) \<and>
         configure_adc mode polarity channels gain s = (Inl TypeError, s)"
proof -
  from assms(3) obtain code where "gain_map gain = Some code"
    using gain_map_dom [of gain] by auto
  from config_value_valid [OF assms(1,2) this assms(4)]
  obtain v where v: "config_value mode polarity channels gain = Inr v" by blast
  have w: "write_register CONFIGURATION_REGISTER (PyInt v) s = (Inl TypeError, s)"
    by (simp add: write_register_def)
  from v w show ?thesis by (simp add: configure_adc_def)
qed

theorem configure_adc_type_error_witness:
  "''pseudo-differential'' \<in> {''pseudo-differential'', ''differential''} \<and>
   ''unipolar'' \<in> {''unipolar'', ''bipolar''} \<and>
   (32::int) \<in> {1, 8, 16, 32, 64, 128} \<and>
   list_all (\<lambda>ch. 1 \<le> ch \<and> ch \<le> 8) [1, 2, 3, 4 :: int] \<and>
   configure_adc ''pseudo-differential'' ''unipolar'' [1, 2, 3, 4] 32 idle = (Inl TypeError, idle) \<and>
   wire (snd (configure_adc ''pseudo-differential'' ''unipolar'' [1, 2, 3, 4] 32 idle)) = []"
  using configure_adc_type_error [of "''pseudo-differential''" "''unipolar''" 32 "[1, 2, 3, 4]" idle]
  by (simp add: idle_def)

lemma configure_adc_first_failure:
  "(mode \<notin> {''pseudo-differential'', ''differential''} \<longrightarrow>
      configure_adc mode polarity channels gain s = (Inl InvalidMode, s)) \<and>
   (mode \<in> {''pseudo-differential'', ''differential''} \<and>
    polarity \<notin> {''unipolar'', ''bipolar''} \<longrightarrow>
      configure_adc mode polarity channels gain s = (Inl InvalidPolarity, s)) \<and>
   (mode \<in> {''pseudo-differential'', ''differential''} \<and>
    polarity \<in> {''unipolar'', ''bipolar''} \<and>
    gain \<notin> {1, 8, 16, 32, 64, 128} \<longrightarrow>
      configure_adc mode polarity channels gain s = (Inl InvalidGain, s)) \<and>
   (mode \<in> {''pseudo-differential'', ''differential''} \<and>
    polarity \<in> {''unipolar'', ''bipolar''} \<and>
    gain \<in> {1, 8, 16, 32, 64, 128} \<and>
    (\<exists>ch\<in>set channels. \<not> (1 \<le> ch \<and> ch \<le> (if mode = ''pseudo-differential'' then 8 else 4))) \<longrightarrow>
      configure_adc mode polarity channels gain s = (Inl (InvalidChannelFor mode), s))"
proof (intro conjI impI)
  assume "mode \<notin> {''pseudo-differential'', ''differential''}"
  then show "configure_adc mode polarity channels gain s = (Inl InvalidMode, s)"
    by (simp add: configure_adc_def config_value_def InvalidMode_def)
next
  assume "mode \<in> {''pseudo-differential'', ''differential''} \<and>
    polarity \<notin> {''unipolar'', ''bipolar''}"
  then show "configure_adc mode polarity channels gain s = (Inl InvalidPolarity, s)"
    by (auto simp add: configure_adc_def config_value_def InvalidPolarity_def)
next
  assume a: "mode \<in> {''pseudo-differential'', ''differential''} \<and>
    polarity \<in> {''unipolar'', ''bipolar''} \<and> gain \<notin> {1, 8, 16, 32, 64, 128}"
  then have "gain_map gain = None" using gain_map_dom [of gain] by blast
  with a show "configure_adc mode polarity channels gain s = (Inl InvalidGain, s)"
    by (auto simp add: configure_adc_def config_value_def InvalidGain_def)
next
  assume a: "mode \<in> {''pseudo-differential'', ''differential''} \<and>
    polarity \<in> {''unipolar'', ''bipolar''} \<and>
    gain \<in> {1, 8, 16, 32, 64, 128} \<and>
    (\<exists>ch\<in>set channels. \<not> (1 \<le> ch \<and> ch \<le> (if mode = ''pseudo-differential'' then 8 else 4)))"
  then obtain code where g: "gain_map gain = Some code"
    using gain_map_dom [of gain] by auto
  from a have bad: "\<exists>ch\<in>set channels. \<not> (1 \<le> ch \<and> ch \<le> (if mode = ''pseudo-differential'' then 8 else 4))"
    by blast
  show "configure_adc mode polarity channels gain s = (Inl (InvalidChannelFor mode), s)"
  proof (cases "mode = ''pseudo-differential''")
    case True
    with bad have "channel_loop 8 ''Invalid channel for pseudo-differential. Choose 1-8.'' channels 0
      = Inl (ValueError ''Invalid channel for pseudo-differential. Choose 1-8.'')"
      using channel_loop_bad [of channels 8] by simp
    with True a g show ?thesis
      by (simp add: configure_adc_def config_value_def InvalidChannelFor_def)
  next
    case False
    with a have d: "mode = ''differential''" by simp
    with bad have "channel_loop 4 ''Invalid channel for differential. Choose 1-4.'' channels 0
      = Inl (ValueError ''Invalid channel for differential. Choose 1-4.'')"
      using channel_loop_bad [of channels 4] by simp
    with d a g show ?thesis
      by (simp add: configure_adc_def config_value_def InvalidChannelFor_def)
  qed
qed

text \<open>
  C7. The checks of \<^verbatim>\<open>configure_adc\<close> run in the order mode, polarity, gain,
  channels, and the first one that fails raises its error with nothing sent:
  \<open>InvalidMode\<close> for a mode other than the two known ones; \<open>InvalidPolarity\<close> for a
  polarity other than \<open>unipolar\<close> and \<open>bipolar\<close>; \<open>InvalidGain\<close> for a gain outside
  1, 8, 16, 32, 64, 128; the mode's \<open>InvalidChannel\<close> error when some listed channel is
  outside 1..8 (pseudo-differential) or 1..4 (differential). Whichever check fails, the
  call ends in a \<^verbatim>\<open>ValueError\<close> and the transport is untouched.
\<close>

theorem configure_adc_validation:
  "(mode \<notin> {''pseudo-differential'', ''differential''} \<longrightarrow>
      configure_adc mode polarity channels gain s = (Inl InvalidMode, s)) \<and>
   (mode \<in> {''pseudo-differential'', ''differential''} \<and>
    polarity \<notin> {''unipolar'', ''bipolar''} \<longrightarrow>
      configure_adc mode polarity channels gain s = (Inl InvalidPolarity, s)) \<and>
   (mode \<in> {''pseudo-differential'', ''differential''} \<and>
    polarity \<in> {''unipolar'', ''bipolar''} \<and>
    gain \<notin> {1, 8, 16, 32, 64, 128} \<longrightarrow>
      configure_adc mode polarity channels gain s = (Inl InvalidGain, s)) \<and>
   (mode \<in> {''pseudo-differential'', ''differential''} \<and>
    polarity \<in> {''unipolar'', ''bipolar''} \<and>
    gain \<in> {1, 8, 16, 32, 64, 128} \<and>
    (\<exists>ch\<in>set channels. \<not> (1 \<le> ch \<and> ch \<le> (if mode = ''pseudo-differential'' then 8 else 4))) \<longrightarrow>
      configure_adc mode polarity channels gain s = (Inl (InvalidChannelFor mode), s)) \<and>
   (mode \<notin> {''pseudo-differential'', ''differential''} \<or>
    polarity \<notin> {''unipolar'', ''bipolar''} \<or>
    gain \<notin> {1, 8, 16, 32, 64, 128} \<or>
    (\<exists>ch\<in>set channels. \<not> (1 \<le> ch \<and> ch \<le> (if mode = ''pseudo-differential'' then 8 else 4))) \<longrightarrow>
      (\<exists>msg. configure_adc mode polarity channels gain s = (Inl (ValueError msg), s)))"
proof -
  note first = configure_adc_first_failure [of mode polarity channels gain s]
  have "\<exists>msg. configure_adc mode polarity channels gain s = (Inl (ValueError msg), s)"
    if "mode \<notin> {''pseudo-differential'', ''differential''} \<or>
        polarity \<notin> {''unipolar'', ''bipolar''} \<or>
        gain \<notin> {1, 8, 16, 32, 64, 128} \<or>
        (\<exists>ch\<in>set channels. \<not> (1 \<le> ch \<and> ch \<le> (if mode = ''pseudo-differential'' then 8 else 4)))"
  proof -
    from that first
    have "configure_adc mode polarity channels gain s = (Inl InvalidMode, s) \<or>
          configure_adc mode polarity channels gain s = (Inl InvalidPolarity, s) \<or>
          configure_adc mode polarity channels gain s = (Inl InvalidGain, s) \<or>
          configure_adc mode polarity channels gain s = (Inl (InvalidChannelFor mode), s)"
      by blast
    then show ?thesis
      by (auto simp: InvalidMode_def InvalidPolarity_def InvalidGain_def InvalidChannelFor_def)
  qed
  with first show ?thesis by blast
qed

theorem configure_adc_validation_witness:
  "configure_adc ''single-ended'' ''unipolar'' [1] 1 idle = (Inl InvalidMode, idle) \<and>
   configure_adc ''differential'' ''tripolar'' [1] 1 idle = (Inl InvalidPolarity, idle) \<and>
   configure_adc ''differential'' ''bipolar'' [1] 2 idle = (Inl InvalidGain, idle) \<and>
   configure_adc ''pseudo-differential'' ''bipolar'' [1, 9] 1 idle
     = (Inl (ValueError ''Invalid channel for pseudo-differential. Choose 1-8.''), idle) \<and>
   configure_adc ''differential'' ''bipolar'' [5] 1 idle
     = (Inl (ValueError ''Invalid channel for differential. Choose 1-4.''), idle)"
  using configure_adc_validation [of "''single-ended''" "''unipolar''" "[1]" 1 idle]
    configure_adc_validation [of "''differential''" "''tripolar''" "[1]" 1 idle]
    configure_adc_validation [of "''differential''" "''bipolar''" "[1]" 2 idle]
    configure_adc_validation [of "''pseudo-differential''" "''bipolar''" "[1, 9]" 1 idle]
    configure_adc_validation [of "''differential''" "''bipolar''" "[5]" 1 idle]
  by (simp add: InvalidChannelFor_def)

text \<open>
  C2, as claimed, fails: the value built for pseudo-differential, unipolar, channels
  1 to 4 and gain 32 is \<open>0x150F\<close>, not \<open>0x1005\<close>.
\<close>

theorem config_value_example_counterexample:
  "config_value ''pseudo-differential'' ''unipolar'' [1, 2, 3, 4] 32 = Inr 0x150F \<and>
   config_value ''pseudo-differential'' ''unipolar'' [1, 2, 3, 4] 32 \<noteq> Inr 0x1005"
  by (simp add: config_value_def gain_map_def)

text \<open>
  C2, amended. For these arguments \<^verbatim>\<open>configure_adc\<close> builds \<open>0x150F\<close>, that is
  \<^verbatim>\<open>(1 << 12) | (0b101 << 8) | 0x0F\<close>: the channel mask \<open>0x0F\<close> (bits 0 to 3 set) in
  bits 7..0, the gain code 5 of gain 32 in bits 10..8, bit 11 zero, the unipolar flag at
  bit 12 and nothing above it.
\<close>

theorem config_value_example:
  "config_value ''pseudo-differential'' ''unipolar'' [1, 2, 3, 4] 32 = Inr 0x150F \<and>
   gain_map 32 = Some 5 \<and>
   (0x150F :: int) = push_bit 12 1 OR push_bit 8 5 OR 0x0F \<and>
   take_bit 8 (0x150F :: int) = 0x0F \<and>
   take_bit 3 (drop_bit 8 (0x150F :: int)) = 5 \<and>
   \<not> bit (0x150F :: int) 11 \<and>
   bit (0x150F :: int) 12 \<and>
   drop_bit 13 (0x150F :: int) = 0"
  by (simp add: config_value_def gain_map_def take_bit_eq_mod drop_bit_eq_div bit_iff_odd)

section \<open>AD7193: the command byte\<close>

lemma write_command: "push_bit 3 r AND 0xF8 = push_bit 3 (take_bit 5 (r::int))"
proof -
  have "(0xF8::int) = push_bit 3 (mask 5)"
    by (simp add: mask_eq_exp_minus_1)
  then have "push_bit 3 r AND 0xF8 = push_bit 3 (r AND mask 5)"
    by (simp only: push_bit_and)
  then show ?thesis
    by (simp only: take_bit_eq_mask)
qed

lemma read_command: "(push_bit 3 r OR 0x40) AND 0xFF = push_bit 3 (take_bit 5 (r::int)) OR 0x40"
proof -
  have "(0xFF::int) = mask 8"
    by (simp add: mask_eq_exp_minus_1)
  then have "(push_bit 3 r OR 0x40) AND 0xFF = take_bit 8 (push_bit 3 r OR 0x40)"
    by (simp only: take_bit_eq_mask)
  also have "\<dots> = take_bit 8 (push_bit 3 r) OR take_bit 8 0x40"
    by (simp only: take_bit_or)
  also have "take_bit 8 (push_bit 3 r) = push_bit 3 (take_bit 5 r)"
    by (simp add: take_bit_push_bit)
  also have "take_bit 8 (0x40::int) = 0x40"
    by (simp add: take_bit_eq_mod)
  finally show ?thesis .
qed

lemma command_bits:
  fixes x :: int
  shows "take_bit 3 (push_bit 3 x) = 0" "take_bit 3 (push_bit 3 x OR 0x40) = 0"
    "drop_bit 3 (push_bit 3 x) = x" "drop_bit 3 (push_bit 3 x OR 0x40) = x OR 8"
    "bit (push_bit 3 x OR 0x40) 6" 
  by (simp_all add: take_bit_push_bit drop_bit_push_bit take_bit_eq_mod [of 3 64]
      drop_bit_eq_div [of 3 64] bit_simps bit_iff_odd_drop_bit [of 64])

lemma small_register:
  fixes r :: int
  assumes "0 \<le> r" "r < 8"
  shows "push_bit 3 (take_bit 5 r) = 8 * r" "push_bit 3 (take_bit 5 r) OR 0x40 = 64 + 8 * r"
proof -
  from assms have t: "take_bit 5 r = r" and r3: "take_bit 3 r = r"
    by (simp_all add: take_bit_int_eq_self)
  have "64 + push_bit 3 r = 64 OR push_bit 3 r"
  proof (rule disjunctive_add)
    fix n
    have "bit (push_bit 3 (take_bit 3 r)) n \<Longrightarrow> n < 6"
      by (auto simp: bit_simps)
    moreover have "bit (64::int) n \<Longrightarrow> n = 6"
      using bit_exp_iff [of 6 n, where ?'a = int] by simp
    ultimately show "\<not> bit (64::int) n \<or> \<not> bit (push_bit 3 r) n"
      unfolding r3 by auto
  qed
  then show "push_bit 3 (take_bit 5 r) = 8 * r" "push_bit 3 (take_bit 5 r) OR 0x40 = 64 + 8 * r"
    by (simp_all add: t push_bit_eq_mult or.commute)
qed

text \<open>
  C4, as claimed, fails for \<^verbatim>\<open>read_register\<close>. The claim puts the read flag in the
  bit below the 5-bit register field (bit 2). The code sets \<open>0x40\<close>, bit 6, which lies
  inside the top 5 bits: reading register 0 sends \<open>0x40\<close>, whose top 5 bits are 8, not
  0, and whose bit 2 is clear; registers 0 and 8 give the same byte.
\<close>

theorem adc_command_byte_counterexample:
  "read_register 0 1 idle
     = ([0], idle\<lparr>wire := [Write [0x40], Read [0]], rxpos := 1\<rparr>) \<and>
   drop_bit 3 (0x40 :: int) \<noteq> 0 \<and>
   \<not> bit (0x40 :: int) 2 \<and>
   read_register 8 1 idle = read_register 0 1 idle"
  by (simp add: read_register_def spi_write_def spi_readinto_def idle_def drop_bit_eq_div
      bit_iff_odd Let_def)

text \<open>
  C4, amended. For every register address \<open>r\<close>, \<^verbatim>\<open>write_register\<close> sends the
  command byte \<^verbatim>\<open>(r << 3) & 0xF8\<close>: the low 5 bits of \<open>r\<close> in bits 7..3 and the
  three low bits zero. \<^verbatim>\<open>read_register\<close> sends \<^verbatim>\<open>((r << 3) | 0x40) & 0xFF\<close>: the
  same byte with bit 6 set. The read flag is bit 6, within the register field, and bits
  2..0 are zero in both; for \<open>r\<close> in 0..7 the bytes are \<open>8 * r\<close> and \<open>64 + 8 * r\<close>.
\<close>

theorem adc_command_byte:
  "write_register r (PyBytes payload) s
     = (Inr (), s\<lparr>wire := wire s @ [Write (push_bit 3 (take_bit 5 r) # payload)]\<rparr>) \<and>
   read_register r n s
     = (map (miso s) [rxpos s ..< rxpos s + n],
        s\<lparr>wire := wire s @ [Write [push_bit 3 (take_bit 5 r) OR 0x40],
                              Read (map (miso s) [rxpos s ..< rxpos s + n])],
          rxpos := rxpos s + n\<rparr>) \<and>
   drop_bit 3 (push_bit 3 (take_bit 5 r)) = take_bit 5 r \<and>
   take_bit 3 (push_bit 3 (take_bit 5 r)) = 0 \<and>
   drop_bit 3 (push_bit 3 (take_bit 5 r) OR 0x40) = take_bit 5 r OR 8 \<and>
   take_bit 3 (push_bit 3 (take_bit 5 r) OR 0x40) = 0 \<and>
   bit (push_bit 3 (take_bit 5 r) OR 0x40) 6 \<and>
   (\<forall>q\<in>{0..7::int}. push_bit 3 (take_bit 5 q) = 8 * q \<and>
                push_bit 3 (take_bit 5 q) OR 0x40 = 64 + 8 * q)"
proof (intro conjI ballI)
  show "write_register r (PyBytes payload) s
     = (Inr (), s\<lparr>wire := wire s @ [Write (push_bit 3 (take_bit 5 r) # payload)]\<rparr>)"
    by (simp add: write_register_def spi_write_def write_command)
  show "read_register r n s
     = (map (miso s) [rxpos s ..< rxpos s + n],
        s\<lparr>wire := wire s @ [Write [push_bit 3 (take_bit 5 r) OR 0x40],
                              Read (map (miso s) [rxpos s ..< rxpos s + n])],
          rxpos := rxpos s + n\<rparr>)"
    by (simp add: read_register_def spi_write_def spi_readinto_def read_command Let_def)
  show "drop_bit 3 (push_bit 3 (take_bit 5 r)) = take_bit 5 r"
    "take_bit 3 (push_bit 3 (take_bit 5 r)) = 0"
    "drop_bit 3 (push_bit 3 (take_bit 5 r) OR 0x40) = take_bit 5 r OR 8"
    "take_bit 3 (push_bit 3 (take_bit 5 r) OR 0x40) = 0"
    "bit (push_bit 3 (take_bit 5 r) OR 0x40) 6"
    by (rule command_bits)+
next
  fix q :: int
  assume "q \<in> {0..7}"
  then have q: "0 \<le> q" "q < 8" by simp_all
  show "push_bit 3 (take_bit 5 q) = 8 * q" "push_bit 3 (take_bit 5 q) OR 0x40 = 64 + 8 * q"
    by (rule small_register [OF q])+
qed

theorem adc_command_byte_witness:
  "(2::int) \<in> {0..7} \<and>
   write_register 2 (PyBytes [0x00, 0x01, 0x17]) idle
     = (Inr (), idle\<lparr>wire := [Write [0x10, 0x00, 0x01, 0x17]]\<rparr>) \<and>
   read_register 2 3 idle
     = ([0, 0, 0], idle\<lparr>wire := [Write [0x50], Read [0, 0, 0]], rxpos := 3\<rparr>)"
  using adc_command_byte [of 2 "[0x00, 0x01, 0x17]" idle 3]
  by (simp add: idle_def take_bit_eq_mod eval_nat_numeral upt_rec)

section \<open>AD7193: reading the channels back\<close>

lemma from_bytes_snoc: "from_bytes (bs @ [b]) = from_bytes bs * 256 + b"
  by (simp add: from_bytes_def)

lemma from_bytes_be_bytes:
  "0 \<le> v \<Longrightarrow> v < 256 ^ n \<Longrightarrow> from_bytes (be_bytes n v) = v"
proof (induction n arbitrary: v)
  case 0
  then show ?case by (simp add: from_bytes_def)
next
  case (Suc n)
  from Suc.prems have "0 \<le> v div 256" "v div 256 < 256 ^ n"
    by (simp_all add: div_less_iff_less_mult)
  then have "from_bytes (be_bytes n (v div 256)) = v div 256"
    by (rule Suc.IH)
  then show ?case
    by (simp add: from_bytes_snoc)
qed

lemma to_bytes_roundtrip: "to_bytes v n = Inr bs \<Longrightarrow> from_bytes bs = v"
  by (auto simp: to_bytes_def from_bytes_be_bytes split: if_splits)

lemma active_channels_filter:
  assumes low: "\<And>k. k < 8 \<Longrightarrow> bit v k \<longleftrightarrow> int k + 1 \<in> set S"
  shows "active_channels v = filter (\<lambda>k. k + 1 \<in> set S) [0..7]"
  unfolding active_channels_def
proof (rule filter_cong [OF refl])
  fix channel :: int
  assume "channel \<in> set [0..7]"
  then have c: "0 \<le> channel" "nat channel < 8" by auto
  from low [OF c(2)] c(1)
  show "(v AND push_bit (nat channel) 1 \<noteq> 0) = (channel + 1 \<in> set S)"
    by (simp add: and_exp_eq_0_iff_not_bit)
qed

lemma shifted_down_neq:
  fixes S :: "int set"
  assumes "finite S" "S \<noteq> {}"
  shows "(\<lambda>n. n - 1) ` S \<noteq> S"
proof
  assume eq: "(\<lambda>n. n - 1) ` S = S"
  from assms have "Max S \<in> S" by simp
  with eq obtain n where "n \<in> S" "Max S = n - 1" by blast
  with assms(1) have "n \<le> n - 1" using Max_ge [of S n] by simp
  then show False by simp
qed

text \<open>
  C9. For every valid channel list \<open>S\<close> (with valid mode, polarity and gain),
  \<^verbatim>\<open>configure_adc\<close> builds a value \<open>v\<close> in which channel \<open>n\<close> of \<open>S\<close> is mask bit
  \<open>n - 1\<close>, and the decoding of \<^verbatim>\<open>get_active_channels\<close> reports mask bit \<open>k\<close> as
  channel \<open>k\<close>: decoding \<open>v\<close> gives exactly the numbers \<open>n - 1\<close> for \<open>n\<close> in \<open>S\<close>,
  in increasing order, which is never \<open>S\<close> itself unless \<open>S\<close> is empty. This is what
  \<^verbatim>\<open>get_active_channels\<close> returns whenever the device answers the register read with
  the 3 big-endian bytes of \<open>v\<close>.
\<close>

theorem channel_numbering_shift:
  assumes "mode \<in> {''pseudo-differential'', ''differential''}"
    and "polarity \<in> {''unipolar'', ''bipolar''}"
    and "gain \<in> {1, 8, 16, 32, 64, 128}"
    and "\<forall>ch\<in>set S. 1 \<le> ch \<and> ch \<le> (if mode = ''pseudo-differential'' then 8 else 4)"
  shows "\<exists>v. config_value mode polarity S gain = Inr v \<and>
             (\<forall>k<8. bit v k = (int k + 1 \<in> set S)) \<and>
             active_channels v = filter (\<lambda>k. k + 1 \<in> set S) [0..7] \<and>
             set (active_channels v) = (\<lambda>n. n - 1) ` set S \<and>
             (S \<noteq> [] \<longrightarrow> set (active_channels v) \<noteq> set S) \<and>
             (\<forall>bs s. to_bytes v 3 = Inr bs \<and> map (miso s) [rxpos s ..< rxpos s + 3] = bs \<longrightarrow>
                  fst (get_active_channels s) = active_channels v)"
proof -
  from assms(3) obtain code where g: "gain_map gain = Some code"
    using gain_map_dom [of gain] by auto
  from config_value_valid [OF assms(1,2) g assms(4)]
  obtain mask where
    loop: "channel_loop (if mode = ''pseudo-differential'' then 8 else 4)
                  (if mode = ''pseudo-differential''
                   then ''Invalid channel for pseudo-differential. Choose 1-8.''
                   else ''Invalid channel for differential. Choose 1-4.'') S 0 = Inr mask"
    and v: "config_value mode polarity S gain =
             Inr (push_bit 12 (if polarity = ''bipolar'' then 0 else 1) OR push_bit 8 code OR mask)"
    by blast
  let ?v = "push_bit 12 (if polarity = ''bipolar'' then 0 else 1) OR push_bit 8 code OR mask"
  have low: "bit ?v k \<longleftrightarrow> int k + 1 \<in> set S" if "k < 8" for k
    using that channel_loop_bits [OF loop, of k] by (simp add: bit_simps)
  have act: "active_channels ?v = filter (\<lambda>k. k + 1 \<in> set S) [0..7]"
    using low by (rule active_channels_filter)
  from assms(4) have range: "\<forall>ch\<in>set S. 1 \<le> ch \<and> ch \<le> 8"
    by (auto split: if_splits)
  have img: "set (active_channels ?v) = (\<lambda>n. n - 1) ` set S"
  proof (intro set_eqI iffI)
    fix k assume "k \<in> set (active_channels ?v)"
    then have "k + 1 \<in> set S" by (simp add: act)
    then have "(k + 1) - 1 \<in> (\<lambda>n. n - 1) ` set S" by (rule imageI)
    then show "k \<in> (\<lambda>n. n - 1) ` set S" by simp
  next
    fix k assume "k \<in> (\<lambda>n. n - 1) ` set S"
    then obtain n where n: "n \<in> set S" "k = n - 1" by blast
    with range have "0 \<le> k" "k \<le> 7" by auto
    with n show "k \<in> set (active_channels ?v)" by (simp add: act)
  qed
  have neq: "S \<noteq> [] \<longrightarrow> set (active_channels ?v) \<noteq> set S"
    using shifted_down_neq [of "set S"] by (simp add: img)
  have rd: "\<forall>bs s. to_bytes ?v 3 = Inr bs \<and> map (miso s) [rxpos s ..< rxpos s + 3] = bs \<longrightarrow>
                  fst (get_active_channels s) = active_channels ?v"
  proof (intro allI impI)
    fix bs and s :: io
    assume a: "to_bytes ?v 3 = Inr bs \<and> map (miso s) [rxpos s ..< rxpos s + 3] = bs"
    then have "from_bytes (map (miso s) [rxpos s ..< rxpos s + 3]) = ?v"
      using to_bytes_roundtrip [of ?v 3 bs] by simp
    then show "fst (get_active_channels s) = active_channels ?v"
      by (simp add: get_active_channels_def read_register_def spi_readinto_def
          spi_write_def Let_def)
  qed
  from low have bits: "\<forall>k<8. bit ?v k = (int k + 1 \<in> set S)" by blast
  from v bits act img neq rd show ?thesis by blast
qed

theorem channel_numbering_shift_witness:
  "''pseudo-differential'' \<in> {''pseudo-differential'', ''differential''} \<and>
   ''unipolar'' \<in> {''unipolar'', ''bipolar''} \<and>
   (32::int) \<in> {1, 8, 16, 32, 64, 128} \<and>
   list_all (\<lambda>ch. 1 \<le> ch \<and> ch \<le> 8) [1, 2, 3, 4 :: int] \<and>
   config_value ''pseudo-differential'' ''unipolar'' [1, 2, 3, 4] 32 = Inr 0x150F \<and>
   active_channels 0x150F = [0, 1, 2, 3] \<and>
   to_bytes 0x150F 3 = Inr [0x00, 0x15, 0x0F] \<and>
   fst (get_active_channels holding) = [0, 1, 2, 3]"
proof -
  have v: "config_value ''pseudo-differential'' ''unipolar'' [1, 2, 3, 4] 32 = Inr 0x150F"
    by (simp add: config_value_def gain_map_def)
  have b: "to_bytes 0x150F 3 = Inr [0x00, 0x15, 0x0F]"
    by (simp add: to_bytes_def eval_nat_numeral)
  have m: "map (miso holding) [rxpos holding ..< rxpos holding + 3] = [0x00, 0x15, 0x0F]"
    by (simp add: holding_def idle_def eval_nat_numeral upt_rec)
  have f: "filter (\<lambda>k. k + 1 \<in> set [1, 2, 3, 4 :: int]) [0..7] = [0, 1, 2, 3]"
    by (simp add: upto.simps)
  from channel_numbering_shift [of "''pseudo-differential''" "''unipolar''" 32 "[1, 2, 3, 4]"]
  have "active_channels 0x150F = [0, 1, 2, 3] \<and>
        fst (get_active_channels holding) = [0, 1, 2, 3]"
    using v b m f by auto
  with v b show ?thesis by simp
qed

section \<open>AD7193: waiting for data\<close>

text \<open>Unfolding the bounded searches of \<open>ulp\<close> on a numeral bound.\<close>

lemma ulp_up_numeral:
  "ulp_up (numeral k) a u = (if 2 \<le> a then ulp_up (pred_numeral k) (a / 2) (2 * u) else u)"
  by (simp add: numeral_eq_Suc)

lemma ulp_down_numeral:
  "ulp_down (numeral k) a u = (if a < 1 then ulp_down (pred_numeral k) (2 * a) (u / 2) else u)"
  by (simp add: numeral_eq_Suc)

lemmas float_eval =
  float_sub_def round_double_def round_half_even_def ulp_def ulp_up_numeral ulp_down_numeral
  Let_def

text \<open>
  The model on known doubles: the literals \<^verbatim>\<open>0.1\<close>, \<^verbatim>\<open>1.1\<close> and \<^verbatim>\<open>0.001\<close>, a tie
  that goes to the even neighbour, and \<^verbatim>\<open>1.1 - 0.1\<close>, which is \<^verbatim>\<open>1.0\<close> in floats
  although the exact difference of the two doubles is larger than 1.
\<close>

lemma round_double_literals:
  "round_double (1 / 10) = 3602879701896397 / 2 ^ 55"
  "round_double (11 / 10) = 2476979795053773 / 2 ^ 51"
  "round_double (1 / 1000) = 1152921504606847 / 2 ^ 60"
  "round_double 0 = 0"
  "round_double (1 + 1 / 2 ^ 53) = 1"
  "round_double (1 + 3 / 2 ^ 53) = 1 + 4 / 2 ^ 53"
  by (simp_all add: float_eval)

lemma float_sub_rounds:
  "float_sub (2476979795053773 / 2 ^ 51) (3602879701896397 / 2 ^ 55) = 1"
  "(2476979795053773 / 2 ^ 51 - 3602879701896397 / 2 ^ 55 :: real) > 1"
  by (simp_all add: float_eval)


lemma data_ready_step:
  "data_ready s =
     (\<not> bit (miso s (rxpos s)) 7,
      s\<lparr>wire := wire s @ [Write [0x40], Read [miso s (rxpos s)]], rxpos := Suc (rxpos s)\<rparr>)"
proof -
  have "(miso s (rxpos s) AND 128 = 0) = (\<not> bit (miso s (rxpos s)) 7)"
    using and_exp_eq_0_iff_not_bit [of "miso s (rxpos s)" 7] by simp
  then show ?thesis
    by (simp add: data_ready_def read_register_def spi_write_def spi_readinto_def
        STATUS_REGISTER_def Let_def)
qed

lemma wait_loop_ready:
  assumes "\<not> bit (miso s (rxpos s)) 7"
  shows "wait_loop start timeout s =
     Some (Inr (), s\<lparr>wire := wire s @ [Write [0x40], Read [miso s (rxpos s)]],
                     rxpos := Suc (rxpos s)\<rparr>)"
  using assms by (subst wait_loop.simps) (simp add: data_ready_step)

lemma wait_loop_expired:
  assumes "bit (miso s (rxpos s)) 7" and "float_sub (clock s (ticks s)) start > timeout"
  shows "wait_loop start timeout s =
     Some (Inl TimeoutError, s\<lparr>wire := wire s @ [Write [0x40], Read [miso s (rxpos s)]],
                     rxpos := Suc (rxpos s), ticks := Suc (ticks s)\<rparr>)"
  using assms by (subst wait_loop.simps) (simp add: data_ready_step monotonic_def)

lemma wait_loop_again:
  assumes "bit (miso s (rxpos s)) 7" and "float_sub (clock s (ticks s)) start \<le> timeout"
  shows "wait_loop start timeout s =
     wait_loop start timeout
       (s\<lparr>wire := wire s @ [Write [0x40], Read [miso s (rxpos s)], Sleep (round_double 0.001)],
          rxpos := Suc (rxpos s), ticks := Suc (ticks s)\<rparr>)"
proof -
  have "sleep (round_double 0.001) (snd (monotonic (snd (data_ready s)))) =
        s\<lparr>wire := wire s @ [Write [0x40], Read [miso s (rxpos s)], Sleep (round_double 0.001)],
          rxpos := Suc (rxpos s), ticks := Suc (ticks s)\<rparr>"
    by (cases s) (simp add: data_ready_step monotonic_def sleep_def)
  with assms show ?thesis
    by (subst wait_loop.simps) (simp add: data_ready_step monotonic_def split_beta)
qed

lemma wait_loop_skip:
  assumes "\<forall>j<k. bit (miso s (rxpos s + j)) 7 \<and> float_sub (clock s (ticks s + j)) start \<le> timeout"
  shows "wait_loop start timeout s =
     wait_loop start timeout
       (s\<lparr>wire := wire s @ busy_polls s k, rxpos := rxpos s + k, ticks := ticks s + k\<rparr>)"
  using assms
proof (induction k)
  case 0
  then show ?case by (simp add: busy_polls_def)
next
  case (Suc k)
  let ?s = "s\<lparr>wire := wire s @ busy_polls s k, rxpos := rxpos s + k, ticks := ticks s + k\<rparr>"
  from Suc.prems have "wait_loop start timeout s = wait_loop start timeout ?s"
    by (intro Suc.IH) simp
  also from Suc.prems have "bit (miso ?s (rxpos ?s)) 7" "float_sub (clock ?s (ticks ?s)) start \<le> timeout"
    by simp_all
  then have "wait_loop start timeout ?s =
     wait_loop start timeout
       (?s\<lparr>wire := wire ?s @ [Write [0x40], Read [miso ?s (rxpos ?s)], Sleep (round_double 0.001)],
          rxpos := Suc (rxpos ?s), ticks := Suc (ticks ?s)\<rparr>)"
    by (rule wait_loop_again)
  finally show ?case
    by (simp add: busy_polls_def)
qed

lemma wait_for_data_ready_skip:
  assumes "\<forall>j<k. bit (miso s (rxpos s + j)) 7 \<and>
                  float_sub (clock s (ticks s + 1 + j)) (clock s (ticks s)) \<le> timeout"
  shows "wait_for_data_ready timeout s =
     wait_loop (clock s (ticks s)) timeout
       (s\<lparr>wire := wire s @ busy_polls s k, rxpos := rxpos s + k,
          ticks := ticks s + 1 + k\<rparr>)"
proof -
  let ?s0 = "s\<lparr>ticks := Suc (ticks s)\<rparr>"
  have "wait_for_data_ready timeout s = wait_loop (clock s (ticks s)) timeout ?s0"
    by (simp add: wait_for_data_ready_def monotonic_def)
  also from assms
  have "\<forall>j<k. bit (miso ?s0 (rxpos ?s0 + j)) 7 \<and>
               float_sub (clock ?s0 (ticks ?s0 + j)) (clock s (ticks s)) \<le> timeout"
    by simp
  then have "wait_loop (clock s (ticks s)) timeout ?s0 =
     wait_loop (clock s (ticks s)) timeout
       (?s0\<lparr>wire := wire ?s0 @ busy_polls ?s0 k, rxpos := rxpos ?s0 + k,
            ticks := ticks ?s0 + k\<rparr>)"
    by (rule wait_loop_skip)
  finally show ?thesis
    by (simp add: busy_polls_def)
qed

text \<open>
  C8. Time is what \<^verbatim>\<open>time.monotonic()\<close> returns, reading by reading; the status
  bytes are what the device clocks out; the elapsed time is the one the program
  computes, the float difference of the current reading and the first one. Suppose the
  first \<open>k\<close> polls find bit 7 set and the elapsed time after each of them does not
  exceed \<open>timeout\<close>. Then the call has polled \<open>k\<close> times with one sleep of
  \<^verbatim>\<open>0.001\<close> s after each poll, and
  \<^item> if poll \<open>k\<close> finds bit 7 clear, the call returns normally at that poll;
  \<^item> if poll \<open>k\<close> finds bit 7 set and the elapsed time after it exceeds \<open>timeout\<close>,
    the call raises \<^verbatim>\<open>TimeoutError\<close>.
  So against a device whose status byte always has bit 7 set the call raises
  \<^verbatim>\<open>TimeoutError\<close> as soon as the elapsed time exceeds the timeout at some reading.
\<close>

theorem wait_for_data_ready_outcome:
  "((\<forall>j<k. bit (miso s (rxpos s + j)) 7 \<and>
            float_sub (clock s (ticks s + 1 + j)) (clock s (ticks s)) \<le> timeout) \<and>
    \<not> bit (miso s (rxpos s + k)) 7 \<longrightarrow>
      wait_for_data_ready timeout s =
        Some (Inr (),
              s\<lparr>wire := wire s @ busy_polls s k
                            @ [Write [0x40], Read [miso s (rxpos s + k)]],
                rxpos := rxpos s + k + 1, ticks := ticks s + k + 1\<rparr>)) \<and>
   ((\<forall>j<k. bit (miso s (rxpos s + j)) 7 \<and>
            float_sub (clock s (ticks s + 1 + j)) (clock s (ticks s)) \<le> timeout) \<and>
    bit (miso s (rxpos s + k)) 7 \<and>
    float_sub (clock s (ticks s + 1 + k)) (clock s (ticks s)) > timeout \<longrightarrow>
      wait_for_data_ready timeout s =
        Some (Inl TimeoutError,
              s\<lparr>wire := wire s @ busy_polls s k
                            @ [Write [0x40], Read [miso s (rxpos s + k)]],
                rxpos := rxpos s + k + 1, ticks := ticks s + k + 2\<rparr>)) \<and>
   ((\<forall>j. bit (miso s (rxpos s + j)) 7) \<and>
    (\<exists>n. float_sub (clock s (ticks s + 1 + n)) (clock s (ticks s)) > timeout) \<longrightarrow>
      (\<exists>s'. wait_for_data_ready timeout s = Some (Inl TimeoutError, s')))"
proof -
  let ?busy = "\<lambda>j. bit (miso s (rxpos s + j)) 7"
  let ?late = "\<lambda>j. float_sub (clock s (ticks s + 1 + j)) (clock s (ticks s)) > timeout"
  let ?sk = "\<lambda>k. s\<lparr>wire := wire s @ busy_polls s k, rxpos := rxpos s + k,
                    ticks := ticks s + 1 + k\<rparr>"
  have ready: "wait_for_data_ready timeout s =
        Some (Inr (),
              s\<lparr>wire := wire s @ busy_polls s k
                            @ [Write [0x40], Read [miso s (rxpos s + k)]],
                rxpos := rxpos s + k + 1, ticks := ticks s + k + 1\<rparr>)"
    if skip: "\<forall>j<k. ?busy j \<and> \<not> ?late j" and now: "\<not> ?busy k" for k
  proof -
    from skip have "wait_for_data_ready timeout s = wait_loop (clock s (ticks s)) timeout (?sk k)"
      by (intro wait_for_data_ready_skip) (simp add: not_less)
    also from now have "\<not> bit (miso (?sk k) (rxpos (?sk k))) 7" by simp
    then have "wait_loop (clock s (ticks s)) timeout (?sk k) =
      Some (Inr (), (?sk k)\<lparr>wire := wire (?sk k) @ [Write [0x40], Read [miso (?sk k) (rxpos (?sk k))]],
                     rxpos := Suc (rxpos (?sk k))\<rparr>)"
      by (rule wait_loop_ready)
    finally show ?thesis by simp
  qed
  have expired: "wait_for_data_ready timeout s =
        Some (Inl TimeoutError,
              s\<lparr>wire := wire s @ busy_polls s k
                            @ [Write [0x40], Read [miso s (rxpos s + k)]],
                rxpos := rxpos s + k + 1, ticks := ticks s + k + 2\<rparr>)"
    if skip: "\<forall>j<k. ?busy j \<and> \<not> ?late j" and now: "?busy k" "?late k" for k
  proof -
    from skip have "wait_for_data_ready timeout s = wait_loop (clock s (ticks s)) timeout (?sk k)"
      by (intro wait_for_data_ready_skip) (simp add: not_less)
    also from now have "bit (miso (?sk k) (rxpos (?sk k))) 7"
      "float_sub (clock (?sk k) (ticks (?sk k))) (clock s (ticks s)) > timeout" by simp_all
    then have "wait_loop (clock s (ticks s)) timeout (?sk k) =
      Some (Inl TimeoutError, (?sk k)\<lparr>wire := wire (?sk k) @ [Write [0x40], Read [miso (?sk k) (rxpos (?sk k))]],
                     rxpos := Suc (rxpos (?sk k)), ticks := Suc (ticks (?sk k))\<rparr>)"
      by (rule wait_loop_expired)
    finally show ?thesis by simp
  qed
  have never: "\<exists>s'. wait_for_data_ready timeout s = Some (Inl TimeoutError, s')"
    if busy: "\<forall>j. ?busy j" and ex: "\<exists>n. ?late n"
  proof -
    define m where "m = (LEAST n. ?late n)"
    from ex have "?late m" unfolding m_def by (rule LeastI_ex)
    moreover have "\<not> ?late j" if "j < m" for j
      using that unfolding m_def by (rule not_less_Least)
    ultimately show ?thesis
      using expired [of m] busy by blast
  qed
  show ?thesis
    using ready [of k] expired [of k] never by (simp add: not_less)
qed

theorem wait_for_data_ready_outcome_witness:
  "float_sub (2476979795053773 / 2 ^ 51) (3602879701896397 / 2 ^ 55) = 1 \<and>
   wait_for_data_ready 1 stuck =
     Some (Inl TimeoutError,
           stuck\<lparr>wire := [Write [0x40], Read [0x80], Sleep (1152921504606847 / 2 ^ 60),
                          Write [0x40], Read [0x80]],
                 rxpos := 2, ticks := 3\<rparr>) \<and>
   wait_for_data_ready 1 late_ready =
     Some (Inr (),
           late_ready\<lparr>wire := [Write [0x40], Read [0x80], Sleep (1152921504606847 / 2 ^ 60),
                               Write [0x40], Read [0x08]],
                      rxpos := 2, ticks := 2\<rparr>)"
proof -
  have b: "bit (0x80 :: int) 7" "\<not> bit (0x08 :: int) 7"
    by (simp_all add: bit_iff_odd)
  have one: "(\<forall>j<1. P j) = P 0" for P :: "nat \<Rightarrow> bool"
    by auto
  have first: "float_sub (2476979795053773 / 2 ^ 51) (3602879701896397 / 2 ^ 55) = 1"
    by (simp add: float_eval)
  have second: "float_sub (3 / 2) (3602879701896397 / 2 ^ 55) = 3152519739159347 / 2 ^ 51"
    by (simp add: float_eval)
  have ms: "round_double 0.001 = 1152921504606847 / 2 ^ 60"
    by (simp add: float_eval)
  have "wait_for_data_ready 1 stuck =
     Some (Inl TimeoutError,
           stuck\<lparr>wire := [Write [0x40], Read [0x80], Sleep (1152921504606847 / 2 ^ 60),
                          Write [0x40], Read [0x80]],
                 rxpos := 2, ticks := 3\<rparr>)"
    using wait_for_data_ready_outcome [of 1 stuck 1] b first second ms
    by (simp add: one stuck_def busy_polls_def)
  moreover have "wait_for_data_ready 1 late_ready =
     Some (Inr (),
           late_ready\<lparr>wire := [Write [0x40], Read [0x80], Sleep (1152921504606847 / 2 ^ 60),
                               Write [0x40], Read [0x08]],
                      rxpos := 2, ticks := 2\<rparr>)"
    using wait_for_data_ready_outcome [of 1 late_ready 1] b first ms
    by (simp add: one late_ready_def stuck_def busy_polls_def)
  ultimately show ?thesis using first by simp
qed

end
